theory Spec2Isabelle
  imports Main
begin

section \<open>Extension hooks (internal/hooks/hooks.go)\<close>

text \<open>
  The package keeps two variables: \<^verbatim>\<open>hookMap\<close>, a Go map from a kind to the slice of
  callbacks attached under it, and the flag \<^verbatim>\<open>enabled\<close>. They are the fields of the
  record below, passed to every operation and returned by the ones that write them. The
  mutex \<^verbatim>\<open>hookMu\<close> orders concurrent callers; the model is sequential and has no lock.

  A callback is a Go function value \<^verbatim>\<open>func(interface{})\<close>. When it is invoked it may do
  anything, also call \<^verbatim>\<open>Attach\<close> or \<^verbatim>\<open>Enable\<close> itself, so it cannot be a HOL function
  on the hook table that stores it. Callbacks are therefore values of a type \<open>'cb\<close>, and
  what invoking one does is given by a function \<open>call\<close>: \<open>call cb data (h, w)\<close> is the
  hook table and the rest of the world \<open>w\<close> after \<^verbatim>\<open>cb(data)\<close> has returned. Callbacks are
  taken to return: \<^verbatim>\<open>Run\<close> does not recover from a callback that panics, and ends with it.
\<close>

record 'cb hooks =
  hookMap :: "string \<rightharpoonup> 'cb list"
  enabled :: bool

definition KindNewEvent :: string where
  "KindNewEvent = ''new_event''"

text \<open>The package-level initialisers: an empty map, hooks disabled.\<close>

definition hooks_init :: "'cb hooks" where
  "hooks_init = \<lparr>hookMap = Map.empty, enabled = False\<rparr>"

definition Enable :: "'cb hooks \<Rightarrow> 'cb hooks" where
  "Enable h = h\<lparr>enabled := True\<rparr>"

text \<open>Reading a key that a Go map does not hold gives the nil slice, which has no element.\<close>

definition callbacks :: "'cb hooks \<Rightarrow> string \<Rightarrow> 'cb list" where
  "callbacks h kind = (case hookMap h kind of None \<Rightarrow> [] | Some cbs \<Rightarrow> cbs)"

definition Attach :: "'cb hooks \<Rightarrow> string \<Rightarrow> 'cb \<Rightarrow> 'cb hooks" where
  "Attach h kind callback =
     (if \<not> enabled h then h
      else h\<lparr>hookMap := (hookMap h)(kind \<mapsto> callbacks h kind @ [callback])\<rparr>)"

text \<open>
  The loop \<^verbatim>\<open>for _, cb := range cbs { cb(data) }\<close> of \<^verbatim>\<open>Run\<close>. The slice \<^verbatim>\<open>cbs\<close> is read once,
  before the first callback runs: what a callback attaches meanwhile is not in it.
\<close>

primrec range_cbs ::
  "('cb \<Rightarrow> 'd \<Rightarrow> 'cb hooks \<times> 'w \<Rightarrow> 'cb hooks \<times> 'w) \<Rightarrow> 'cb list \<Rightarrow> 'd \<Rightarrow>
     'cb hooks \<times> 'w \<Rightarrow> 'cb hooks \<times> 'w" where
  "range_cbs call [] data s = s"
| "range_cbs call (cb # cbs) data s = range_cbs call cbs data (call cb data s)"

definition Run ::
  "('cb \<Rightarrow> 'd \<Rightarrow> 'cb hooks \<times> 'w \<Rightarrow> 'cb hooks \<times> 'w) \<Rightarrow> 'cb hooks \<Rightarrow> string \<Rightarrow> 'd \<Rightarrow> 'w \<Rightarrow>
     'cb hooks \<times> 'w" where
  "Run call h kind data w =
     (if \<not> enabled h then (h, w)
      else range_cbs call (callbacks h kind) data (h, w))"

text \<open>A run of \<^verbatim>\<open>Attach\<close> calls, first to last, each given as its kind and its callback.\<close>

fun attach_all :: "'cb hooks \<Rightarrow> (string \<times> 'cb) list \<Rightarrow> 'cb hooks" where
  "attach_all h [] = h"
| "attach_all h ((kind, callback) # rest) = attach_all (Attach h kind callback) rest"

text \<open>
  For the examples: a callback that appends its own name and the payload it was given to
  a journal, and touches nothing else.
\<close>

definition journal_call ::
  "string \<Rightarrow> 'd \<Rightarrow> string hooks \<times> (string \<times> 'd) list \<Rightarrow> string hooks \<times> (string \<times> 'd) list" where
  "journal_call cb data s = (fst s, snd s @ [(cb, data)])"


section \<open>Traced database access (internal/sqlutil/trace.go)\<close>

subsection \<open>Values of the Go runtime and of the libraries\<close>

text \<open>
  Go errors. \<^verbatim>\<open>io.EOF\<close> is the sentinel that \<^verbatim>\<open>RowsNext\<close> compares with; the two
  \<^verbatim>\<open>fmt.Errorf\<close> calls of \<^verbatim>\<open>Open\<close> build the other two; every error made outside this
  file (by a driver, by \<^verbatim>\<open>sql.Open\<close>, by \<^verbatim>\<open>ParseFileURI\<close>) is a \<open>LibraryError\<close> with its
  message.
\<close>

datatype error =
    io_EOF
  | LibraryError string
  | ErrorfParseFileURI error
  | ErrorfInvalidConnectionString string

text \<open>
  A \<^verbatim>\<open>context.Context\<close> maps keys to values of type \<^verbatim>\<open>interface{}\<close>; \<^verbatim>\<open>ctx.Value(k)\<close> is
  nil, here \<open>None\<close>, for a key it does not hold. A value is a string or has another
  dynamic type; the type assertion \<^verbatim>\<open>key.(string)\<close> panics on the latter.
\<close>

datatype any = StringValue string | OtherValue nat

type_synonym "context" = "string \<rightharpoonup> any"

datatype panic = TypeAssertion

definition CtxDBInstance :: string where
  "CtxDBInstance = ''db_instance''"

text \<open>
  What the functions hand to logrus, in the order of the calls. \<open>Infof\<close> and \<open>Debug\<close>
  carry the formatted message. \<open>DebugQuery\<close> is the entry of
  \<^verbatim>\<open>WithField(...).Debug("executed sql query ", query, " args: ", args)\<close> with its error
  field, its field \<^verbatim>\<open>safe\<close>, the statement text and the bound arguments; the field
  \<^verbatim>\<open>duration\<close> is a reading of the clock and is left out.
\<close>

datatype 'arg entry =
    Infof string
  | Debug string
  | DebugQuery "error option" string string "'arg list"

text \<open>\<^verbatim>\<open>strings.HasPrefix\<close> and \<^verbatim>\<open>strings.Join\<close>, on strings as byte sequences.\<close>

definition HasPrefix :: "string \<Rightarrow> string \<Rightarrow> bool" where
  "HasPrefix s p = (length p \<le> length s \<and> take (length p) s = p)"

fun Join :: "string list \<Rightarrow> string \<Rightarrow> string" where
  "Join [] sep = []"
| "Join [x] sep = x"
| "Join (x # y # ys) sep = x @ sep @ Join (y # ys) sep"

text \<open>\<^verbatim>\<open>fmt.Sprintf("%d", n)\<close>: the decimal digits of \<open>n\<close>, after a minus sign when \<open>n < 0\<close>.\<close>

definition digit :: "nat \<Rightarrow> char" where
  "digit d = ''0123456789'' ! d"

fun digits :: "nat \<Rightarrow> string" where
  "digits n = (if n < 10 then [digit n] else digits (n div 10) @ [digit (n mod 10)])"

declare digits.simps [simp del]

definition Sprintf_d :: "int \<Rightarrow> string" where
  "Sprintf_d n = (if n < 0 then CHR ''-'' # digits (nat (- n)) else digits (nat n))"


subsection \<open>The package state\<close>

text \<open>
  \<^verbatim>\<open>dbToWriter\<close> maps a connection token to a value of the interface type \<^verbatim>\<open>Writer\<close>, and
  \<^verbatim>\<open>instCount\<close> counts the connections opened with a Writer. The interface is declared
  outside this file; \<open>'w\<close> is the type of its implementations, \<open>None\<close> the nil interface
  value, and \<open>Safe\<close>, a parameter of the functions that call it, is the method
  \<^verbatim>\<open>w.Safe()\<close>. Indexing a Go map gives the zero value, nil, for a key it does not hold.

  \<^verbatim>\<open>instCount\<close> is a Go \<^verbatim>\<open>int\<close>, modelled at its width on a 64-bit platform: a number
  from \<open>- (2 ^ 63)\<close> to \<open>2 ^ 63 - 1\<close>. Go arithmetic wraps around: \<^verbatim>\<open>instCount++\<close> at
  \<open>2 ^ 63 - 1\<close> gives \<open>- (2 ^ 63)\<close>. \<open>wrap_int n\<close> is the value that a 64-bit \<^verbatim>\<open>int\<close>
  holds for the integer \<open>n\<close>.
\<close>

definition wrap_int :: "int \<Rightarrow> int" where
  "wrap_int n = (n + 2 ^ 63) mod 2 ^ 64 - 2 ^ 63"

record 'w sqlutil =
  dbToWriter :: "string \<rightharpoonup> 'w option"
  instCount :: int

definition sqlutil_init :: "'w sqlutil" where
  "sqlutil_init = \<lparr>dbToWriter = Map.empty, instCount = 0\<rparr>"

definition index :: "(string \<rightharpoonup> 'w option) \<Rightarrow> string \<Rightarrow> 'w option" where
  "index m k = (case m k of None \<Rightarrow> None | Some w \<Rightarrow> w)"


subsection \<open>The interceptor\<close>

text \<open>
  Lines 46 to 55 and 68 to 77, the same text in \<^verbatim>\<open>StmtQueryContext\<close> and
  \<^verbatim>\<open>StmtExecContext\<close>: the value of the variable \<^verbatim>\<open>safe\<close>, or the panic of the type
  assertion.
\<close>

definition safeLabel ::
  "('w \<Rightarrow> string) \<Rightarrow> (string \<rightharpoonup> 'w option) \<Rightarrow> context \<Rightarrow> panic + string" where
  "safeLabel Safe registry ctx =
     (case ctx CtxDBInstance of
        None \<Rightarrow> Inr []
      | Some (OtherValue v) \<Rightarrow> Inl TypeAssertion
      | Some (StringValue key) \<Rightarrow>
          (case index registry key of
             None \<Rightarrow> Inr (''no writer for key '' @ key)
           | Some w \<Rightarrow> Inr (Safe w)))"

text \<open>Lines 56 to 60 and 78 to 82: the audit entry when it is due, then the trace entry.\<close>

definition logStatement :: "string \<Rightarrow> string \<Rightarrow> 'arg list \<Rightarrow> error option \<Rightarrow> 'arg entry list" where
  "logStatement safe query args err =
     (if safe \<noteq> [] \<and> \<not> HasPrefix query ''SELECT ''
      then [Infof (''unsafe: '' @ safe @ '' -- '' @ query)] else [])
     @ [DebugQuery err safe query args]"

text \<open>
  The two statement interceptors. The last argument is what the delegated call,
  \<^verbatim>\<open>stmt.QueryContext(ctx, args)\<close> or \<^verbatim>\<open>stmt.ExecContext(ctx, args)\<close>, has returned. The
  result is the entries logged, and the panic or the pair returned.
\<close>

definition StmtQueryContext ::
  "('w \<Rightarrow> string) \<Rightarrow> (string \<rightharpoonup> 'w option) \<Rightarrow> context \<Rightarrow> string \<Rightarrow> 'arg list \<Rightarrow>
     'rows \<times> error option \<Rightarrow> 'arg entry list \<times> (panic + 'rows \<times> error option)" where
  "StmtQueryContext Safe registry ctx query args delegated =
     (case delegated of (rows, err) \<Rightarrow>
        (case safeLabel Safe registry ctx of
           Inl p \<Rightarrow> ([], Inl p)
         | Inr safe \<Rightarrow> (logStatement safe query args err, Inr (rows, err))))"

definition StmtExecContext ::
  "('w \<Rightarrow> string) \<Rightarrow> (string \<rightharpoonup> 'w option) \<Rightarrow> context \<Rightarrow> string \<Rightarrow> 'arg list \<Rightarrow>
     'result \<times> error option \<Rightarrow> 'arg entry list \<times> (panic + 'result \<times> error option)" where
  "StmtExecContext Safe registry ctx query args delegated =
     (case delegated of (result, err) \<Rightarrow>
        (case safeLabel Safe registry ctx of
           Inl p \<Rightarrow> ([], Inl p)
         | Inr safe \<Rightarrow> (logStatement safe query args err, Inr (result, err))))"

text \<open>
  The loop of \<^verbatim>\<open>RowsNext\<close> over \<^verbatim>\<open>dest\<close>, from index \<open>i\<close> with the builder holding \<open>b\<close>.
  \<open>quote\<close> is \<^verbatim>\<open>fmt.Sprintf("%q", val)\<close>.
\<close>

function writeValues :: "('v \<Rightarrow> string) \<Rightarrow> 'v list \<Rightarrow> nat \<Rightarrow> string \<Rightarrow> string" where
  "writeValues quote dest i b =
     (if i < length dest
      then writeValues quote dest (Suc i)
             (b @ quote (dest ! i) @
               (if int i + 1 \<le> int (length dest) - 1 then '' | '' else []))
      else b)"
  by pat_completeness auto
termination
  by (relation "measure (\<lambda>(quote, dest, i, b). length dest - i)") auto

declare writeValues.simps [simp del]

text \<open>
  \<^verbatim>\<open>RowsNext\<close>, given the column names \<^verbatim>\<open>rows.Columns()\<close> and what \<^verbatim>\<open>rows.Next(dest)\<close> has
  done: the values now in \<^verbatim>\<open>dest\<close> and the error returned. The result is the entries
  logged and the error returned.
\<close>

definition RowsNext ::
  "('v \<Rightarrow> string) \<Rightarrow> string list \<Rightarrow> 'v list \<times> error option \<Rightarrow>
     'arg entry list \<times> error option" where
  "RowsNext quote cols fetched =
     (case fetched of (dest, err) \<Rightarrow>
        if err = Some io_EOF then ([], err)
        else ([Debug (Join cols '' | ''), Debug (writeValues quote dest 0 [])], err))"


subsection \<open>Opening a database\<close>

text \<open>
  The options behind the pointer \<^verbatim>\<open>dbProperties\<close>: the connection string and what the
  methods \<^verbatim>\<open>MaxOpenConns()\<close>, \<^verbatim>\<open>MaxIdleConns()\<close> and \<^verbatim>\<open>ConnMaxLifetime()\<close> return.
\<close>

record DatabaseOptions =
  ConnectionString :: string
  MaxOpenConns :: int
  MaxIdleConns :: int
  ConnMaxLifetime :: int

text \<open>
  A handle \<^verbatim>\<open>*sql.DB\<close>: the driver and data source it was opened with, and the settings
  made on it since, in order.
\<close>

datatype setting = SetMaxOpenConns int | SetMaxIdleConns int | SetConnMaxLifetime int

record DB =
  driverName :: string
  dataSourceName :: string
  settings :: "setting list"

text \<open>
  What \<^verbatim>\<open>Open\<close> uses and this file does not define: the trace toggle read from the
  process environment at start-up, \<^verbatim>\<open>SQLiteDriverName()\<close>, the two tests and the parser
  of connection strings, and \<^verbatim>\<open>sql.Open\<close>, which is given by its error (\<open>None\<close> when it
  returns a handle).
\<close>

record env =
  tracingEnabled :: bool
  SQLiteDriverName :: string
  IsSQLite :: "string \<Rightarrow> bool"
  IsPostgres :: "string \<Rightarrow> bool"
  ParseFileURI :: "string \<Rightarrow> error + string"
  sql_Open :: "string \<Rightarrow> string \<Rightarrow> error option"

text \<open>
  The \<^verbatim>\<open>switch\<close> of \<^verbatim>\<open>Open\<close>: the driver name and the data source name, or the error.
  \<^verbatim>\<open>Open\<close> goes on from there. The debug entry that it logs before it applies the pool
  settings has no part in what it returns and is left out.
\<close>

definition selectDriver :: "env \<Rightarrow> DatabaseOptions \<Rightarrow> error + string \<times> string" where
  "selectDriver e dbProperties =
     (if IsSQLite e (ConnectionString dbProperties) then
        (case ParseFileURI e (ConnectionString dbProperties) of
           Inl err \<Rightarrow> Inl (ErrorfParseFileURI err)
         | Inr dsn \<Rightarrow> Inr (SQLiteDriverName e, dsn))
      else if IsPostgres e (ConnectionString dbProperties) then
        Inr (''postgres'', ConnectionString dbProperties)
      else Inl (ErrorfInvalidConnectionString (ConnectionString dbProperties)))"

definition Open :: "env \<Rightarrow> DatabaseOptions \<Rightarrow> error + DB" where
  "Open e dbProperties =
     (case selectDriver e dbProperties of
        Inl err \<Rightarrow> Inl err
      | Inr (name, dsn) \<Rightarrow>
          (let driverName = (if tracingEnabled e then name @ ''-trace'' else name) in
           case sql_Open e driverName dsn of
             Some err \<Rightarrow> Inl err
           | None \<Rightarrow>
               (let db = \<lparr>driverName = driverName, dataSourceName = dsn, settings = []\<rparr> in
                if driverName \<noteq> SQLiteDriverName e
                then Inr (db\<lparr>settings :=
                       [SetMaxOpenConns (MaxOpenConns dbProperties),
                        SetMaxIdleConns (MaxIdleConns dbProperties),
                        SetConnMaxLifetime (ConnMaxLifetime dbProperties)]\<rparr>)
                else Inr db)))"

text \<open>\<^verbatim>\<open>context.TODO()\<close> holds no value; \<^verbatim>\<open>context.WithValue\<close> adds one.\<close>

definition OpenWithWriter ::
  "env \<Rightarrow> 'w sqlutil \<Rightarrow> DatabaseOptions \<Rightarrow> 'w option \<Rightarrow>
     'w sqlutil \<times> (error + DB \<times> context)" where
  "OpenWithWriter e st dbProperties w =
     (case Open e dbProperties of
        Inl err \<Rightarrow> (st, Inl err)
      | Inr db \<Rightarrow>
          (let n = wrap_int (instCount st + 1);
               ctxVal = Sprintf_d n;
               st' = st\<lparr>instCount := n, dbToWriter := (dbToWriter st)(ctxVal \<mapsto> w)\<rparr>;
               ctx = Map.empty(CtxDBInstance \<mapsto> StringValue ctxVal)
           in (st', Inr (db, ctx))))"

text \<open>
  A run of \<^verbatim>\<open>OpenWithWriter\<close> calls, first to last, each given as its options and its
  Writer; some may fail. No other function writes the package state.
\<close>

fun open_all :: "env \<Rightarrow> 'w sqlutil \<Rightarrow> (DatabaseOptions \<times> 'w option) list \<Rightarrow> 'w sqlutil" where
  "open_all e st [] = st"
| "open_all e st ((dbProperties, w) # rest) =
     open_all e (fst (OpenWithWriter e st dbProperties w)) rest"

text \<open>
  The invariant of the package state: the counter is not negative, and every registered
  token is the decimal rendering of a number from 1 up to the counter.
\<close>

definition minted :: "'w sqlutil \<Rightarrow> bool" where
  "minted st = (0 \<le> instCount st \<and> dom (dbToWriter st) \<subseteq> Sprintf_d ` {1..instCount st})"

text \<open>
  For the examples: an environment in which the embedded driver is called
  \<^verbatim>\<open>sqlite3\<close>, connection strings are told apart by the prefixes \<^verbatim>\<open>file:\<close> and
  \<^verbatim>\<open>postgres\<close>, the file name is what follows \<^verbatim>\<open>file:\<close>, and \<^verbatim>\<open>sql.Open\<close> knows every
  driver.
\<close>

definition sample_env :: "bool \<Rightarrow> env" where
  "sample_env tracing =
     \<lparr>tracingEnabled = tracing, SQLiteDriverName = ''sqlite3'',
      IsSQLite = (\<lambda>s. HasPrefix s ''file:''), IsPostgres = (\<lambda>s. HasPrefix s ''postgres''),
      ParseFileURI = (\<lambda>s. Inr (drop 5 s)), sql_Open = (\<lambda>name dsn. None)\<rparr>"

definition sample_options :: "string \<Rightarrow> DatabaseOptions" where
  "sample_options cs =
     \<lparr>ConnectionString = cs, MaxOpenConns = 100, MaxIdleConns = 2, ConnMaxLifetime = - 1\<rparr>"


section \<open>Properties of the extension hooks\<close>

lemma Attach_disabled: "\<not> enabled h \<Longrightarrow> Attach h kind callback = h"
  by (simp add: Attach_def)

lemma attach_all_disabled: "\<not> enabled h \<Longrightarrow> attach_all h as = h"
  by (induction h as rule: attach_all.induct) (simp_all add: Attach_disabled)

lemma enabled_Attach: "enabled (Attach h kind callback) = enabled h"
  by (simp add: Attach_def)

lemma callbacks_Attach:
  "enabled h \<Longrightarrow>
     callbacks (Attach h kind callback) k =
       (if k = kind then callbacks h k @ [callback] else callbacks h k)"
  by (simp add: Attach_def callbacks_def)

lemma enabled_attach_all: "enabled (attach_all h as) = enabled h"
  by (induction h as rule: attach_all.induct) (simp_all add: enabled_Attach)

lemma callbacks_attach_all:
  "enabled h \<Longrightarrow>
     callbacks (attach_all h as) k = callbacks h k @ map snd (filter (\<lambda>a. fst a = k) as)"
proof (induction h as rule: attach_all.induct)
  case (1 h)
  then show ?case by simp
next
  case (2 h kind callback rest)
  from "2.prems" have en: "enabled (Attach h kind callback)"
    by (simp add: enabled_Attach)
  show ?case
    using "2.IH" [OF en] "2.prems" by (simp add: callbacks_Attach)
qed

lemma callbacks_init: "callbacks (Enable (attach_all hooks_init pre)) k = []"
proof -
  have "attach_all (hooks_init :: 'a hooks) pre = hooks_init"
    by (rule attach_all_disabled) (simp add: hooks_init_def)
  then show ?thesis
    by (simp add: hooks_init_def Enable_def callbacks_def)
qed

lemma range_cbs_append:
  "range_cbs call (xs @ ys) data s = range_cbs call ys data (range_cbs call xs data s)"
  by (induction xs arbitrary: s) auto

lemma range_cbs_journal:
  "range_cbs journal_call cbs p (h, j) = (h, j @ map (\<lambda>cb. (cb, p)) cbs)"
  by (induction cbs arbitrary: j) (simp_all add: journal_call_def)

text \<open>
  C3. Once \<^verbatim>\<open>Enable()\<close> has been called, \<^verbatim>\<open>Run(K, p)\<close> invokes the callbacks attached under
  \<open>K\<close> since then, and no other: one invocation per attachment (a callback attached twice
  is invoked twice), in the order of attachment, each on what the one before it left, and
  \<^verbatim>\<open>Run\<close> returns what the last one left. The attachments are any list \<open>as\<close> of calls of
  \<^verbatim>\<open>Attach\<close>, under any kinds; the calls \<open>pre\<close> made before \<^verbatim>\<open>Enable()\<close> attach nothing. The
  model has one thread: the callbacks run inside the evaluation of \<open>Run\<close>. The last part
  states the same for callbacks that write a journal of their invocations: \<^verbatim>\<open>Run\<close> adds
  to the journal one line with the payload for each attachment under \<open>K\<close>, in order.
\<close>

theorem Run_invokes_attached_in_order:
  "callbacks (attach_all (Enable (attach_all hooks_init pre)) as) K =
       map snd (filter (\<lambda>a. fst a = K) as)
   \<and> Run call (attach_all (Enable (attach_all hooks_init pre)) as) K p w =
       range_cbs call (map snd (filter (\<lambda>a. fst a = K) as)) p
         (attach_all (Enable (attach_all hooks_init pre)) as, w)
   \<and> snd (Run journal_call (attach_all (Enable (attach_all hooks_init pre')) as') K p j) =
       j @ map (\<lambda>cb. (cb, p)) (map snd (filter (\<lambda>a. fst a = K) as'))"
proof -
  have cbs: "callbacks (attach_all (Enable (attach_all hooks_init pre)) as) K =
      map snd (filter (\<lambda>a. fst a = K) as)" for pre and as :: "(string \<times> 'x) list"
  proof -
    have "enabled (Enable (attach_all (hooks_init :: 'x hooks) pre))"
      by (simp add: Enable_def)
    from callbacks_attach_all [OF this, of as K] show ?thesis
      by (simp add: callbacks_init)
  qed
  have run: "Run call (attach_all (Enable (attach_all hooks_init pre)) as) K p w =
      range_cbs call (map snd (filter (\<lambda>a. fst a = K) as)) p
        (attach_all (Enable (attach_all hooks_init pre)) as, w)"
    for call :: "'x \<Rightarrow> 'y \<Rightarrow> 'x hooks \<times> 'z \<Rightarrow> 'x hooks \<times> 'z"
      and pre and as :: "(string \<times> 'x) list" and p w
  proof -
    have "enabled (attach_all (Enable (attach_all (hooks_init :: 'x hooks) pre)) as)"
      by (simp add: enabled_attach_all Enable_def)
    then show ?thesis by (simp add: Run_def cbs)
  qed
  show ?thesis
    by (simp add: cbs run range_cbs_journal)
qed

text \<open>
  On an example: \<open>cb1\<close>, \<open>cb2\<close> and \<open>cb1\<close> again are attached under \<^verbatim>\<open>"new_event"\<close>,
  another callback under another kind, and one before \<^verbatim>\<open>Enable()\<close>. The journal of
  \<^verbatim>\<open>Run("new_event", 7)\<close> is \<open>cb1\<close>, \<open>cb2\<close>, \<open>cb1\<close>.
\<close>

theorem Run_invokes_attached_in_order_witness:
  "snd (Run journal_call
     (attach_all (Enable (attach_all hooks_init [(KindNewEvent, ''early'')]))
        [(KindNewEvent, ''cb1''), (''other'', ''cb3''), (KindNewEvent, ''cb2''),
         (KindNewEvent, ''cb1'')])
     KindNewEvent (7::nat) []) =
   [(''cb1'', 7), (''cb2'', 7), (''cb1'', 7)]"
proof -
  have "map snd (filter (\<lambda>a. fst a = KindNewEvent)
          [(KindNewEvent, ''cb1''), (''other'', ''cb3''), (KindNewEvent, ''cb2''),
           (KindNewEvent, ''cb1'')]) = [''cb1'', ''cb2'', ''cb1'']"
    by (simp add: KindNewEvent_def)
  with Run_invokes_attached_in_order
    [where K = KindNewEvent and p = "7::nat" and j = "[]"
       and pre = "[] :: (string \<times> string) list" and as = "[]" and call = journal_call
       and w = "[]"
       and pre' = "[(KindNewEvent, ''early'')]"
       and as' = "[(KindNewEvent, ''cb1''), (''other'', ''cb3''), (KindNewEvent, ''cb2''),
          (KindNewEvent, ''cb1'')]"]
  show ?thesis by (simp add: KindNewEvent_def)
qed

text \<open>
  The scenario of the specification: with one journal-writing callback attached under
  \<^verbatim>\<open>"new_event"\<close> after \<^verbatim>\<open>Enable()\<close>, three calls of \<^verbatim>\<open>Run("new_event", x)\<close> leave the
  journal with three lines for \<open>x\<close>.
\<close>

lemma Run_three_times:
  "snd (Run journal_call (Attach (Enable hooks_init) KindNewEvent ''cb'') KindNewEvent x
     (snd (Run journal_call (Attach (Enable hooks_init) KindNewEvent ''cb'') KindNewEvent x
        (snd (Run journal_call (Attach (Enable hooks_init) KindNewEvent ''cb'') KindNewEvent x
           [])))))
   = [(''cb'', x), (''cb'', x), (''cb'', x)]"
  by (simp add: Run_def Attach_def Enable_def hooks_init_def callbacks_def journal_call_def)

text \<open>
  C4. While the hooks are disabled, which they are from the start and until
  \<^verbatim>\<open>Enable()\<close>, \<^verbatim>\<open>Attach(K, cb)\<close> returns the hook table as it was and \<^verbatim>\<open>Run(K, p)\<close> after
  it returns the hook table and the world as they were: whatever invoking \<open>cb\<close> would
  do, it is not done.
\<close>

theorem disabled_Attach_Run_noop:
  "\<not> enabled h \<Longrightarrow>
     Attach h K cb = h \<and> Run call (Attach h K cb) K p w = (h, w)"
  by (simp add: Attach_def Run_def)

theorem disabled_Attach_Run_noop_witness:
  "\<not> enabled (hooks_init :: string hooks)
   \<and> Attach hooks_init KindNewEvent ''cb1'' = (hooks_init :: string hooks)
   \<and> Run journal_call (Attach hooks_init KindNewEvent ''cb1'') KindNewEvent (7::nat) []
       = (hooks_init, [])"
proof -
  have off: "\<not> enabled (hooks_init :: string hooks)"
    by (simp add: hooks_init_def)
  show ?thesis
    using off disabled_Attach_Run_noop
      [OF off, of KindNewEvent "''cb1''" journal_call "7::nat" "[]"]
    by blast
qed

section \<open>Properties of the traced database access\<close>

subsection \<open>Decimal rendering is injective\<close>

lemma below_ten:
  "(d::nat) < 10 \<Longrightarrow>
     d = 0 \<or> d = 1 \<or> d = 2 \<or> d = 3 \<or> d = 4 \<or> d = 5 \<or> d = 6 \<or> d = 7 \<or> d = 8 \<or> d = 9"
  by arith

lemma of_char_digit: "d < 10 \<Longrightarrow> of_char (digit d) = 48 + d"
  using below_ten [of d] by (auto simp: digit_def)

lemma digits_value:
  "foldl (\<lambda>a c. 10 * a + (of_char c - 48)) 0 (digits n) = n"
proof (induction n rule: digits.induct)
  case (1 n)
  show ?case
  proof (cases "n < 10")
    case True
    then show ?thesis
      by (simp add: digits.simps [of n] of_char_digit)
  next
    case False
    then show ?thesis
      using "1.IH" by (simp add: digits.simps [of n] of_char_digit)
  qed
qed

lemma digits_inject: "digits a = digits b \<Longrightarrow> a = b"
  by (metis digits_value)

lemma digits_no_minus: "CHR ''-'' \<notin> set (digits n)"
proof (induction n rule: digits.induct)
  case (1 n)
  have d: "CHR ''-'' \<noteq> digit k" if "k < 10" for k
  proof
    assume "CHR ''-'' = digit k"
    then have "of_char (digit k) = (of_char (CHR ''-'') :: nat)" by simp
    with that show False by (simp add: of_char_digit)
  qed
  show ?case
  proof (cases "n < 10")
    case True
    then show ?thesis by (simp add: digits.simps [of n] d)
  next
    case False
    then show ?thesis using "1.IH" by (simp add: digits.simps [of n] d)
  qed
qed

lemma Sprintf_d_inject: "Sprintf_d a = Sprintf_d b \<Longrightarrow> a = b"
proof -
  assume eq: "Sprintf_d a = Sprintf_d b"
  consider "a < 0" "b < 0" | "0 \<le> a" "0 \<le> b" | "a < 0" "0 \<le> b" | "0 \<le> a" "b < 0"
    by linarith
  then show ?thesis
  proof cases
    case 1
    with eq have "digits (nat (- a)) = digits (nat (- b))" by (simp add: Sprintf_d_def)
    then have "nat (- a) = nat (- b)" by (rule digits_inject)
    with 1 show ?thesis by simp
  next
    case 2
    with eq have "digits (nat a) = digits (nat b)" by (simp add: Sprintf_d_def)
    then have "nat a = nat b" by (rule digits_inject)
    with 2 show ?thesis by simp
  next
    case 3
    with eq have "CHR ''-'' # digits (nat (- a)) = digits (nat b)" by (simp add: Sprintf_d_def)
    then have "CHR ''-'' \<in> set (digits (nat b))" by (metis list.set_intros(1))
    then show ?thesis by (simp add: digits_no_minus)
  next
    case 4
    with eq have "digits (nat a) = CHR ''-'' # digits (nat (- b))" by (simp add: Sprintf_d_def)
    then have "CHR ''-'' \<in> set (digits (nat a))" by (metis list.set_intros(1))
    then show ?thesis by (simp add: digits_no_minus)
  qed
qed


subsection \<open>Row iteration\<close>

lemma Join_Cons: "Join (x # xs) sep = (if xs = [] then x else x @ sep @ Join xs sep)"
  by (cases xs) simp_all

lemma writeValues_drop:
  "i \<le> length dest \<Longrightarrow>
     writeValues quote dest i b = b @ Join (map quote (drop i dest)) '' | ''"
proof (induction quote dest i b rule: writeValues.induct)
  case (1 quote dest i b)
  show ?case
  proof (cases "i < length dest")
    case True
    then have d: "drop i dest = dest ! i # drop (Suc i) dest"
      by (simp add: Cons_nth_drop_Suc)
    have more: "(int i + 1 \<le> int (length dest) - 1) = (drop (Suc i) dest \<noteq> [])"
      by auto
    from True have "Suc i \<le> length dest" by simp
    with True "1.IH" have
      "writeValues quote dest (Suc i)
         (b @ quote (dest ! i) @ (if int i + 1 \<le> int (length dest) - 1 then '' | '' else []))
       = (b @ quote (dest ! i) @ (if int i + 1 \<le> int (length dest) - 1 then '' | '' else []))
           @ Join (map quote (drop (Suc i) dest)) '' | ''"
      by blast
    then show ?thesis
      using True by (simp add: writeValues.simps [of quote dest i b] d Join_Cons more)
  next
    case False
    then have "writeValues quote dest i b = b"
      by (subst writeValues.simps) simp
    with False "1.prems" show ?thesis by simp
  qed
qed

lemma writeValues_Join: "writeValues quote dest 0 [] = Join (map quote dest) '' | ''"
  by (simp add: writeValues_drop)

text \<open>
  C7. When the fetch returns \<^verbatim>\<open>io.EOF\<close>, \<^verbatim>\<open>RowsNext\<close> logs nothing for that call. On every
  other fetch, one that returns no error or another error, it logs two lines: the column
  names joined by \<^verbatim>\<open>" | "\<close>, then the quoted renderings of the values in \<^verbatim>\<open>dest\<close>, joined
  the same way.
\<close>

theorem RowsNext_logs:
  "fst (RowsNext quote cols (dest, err)) =
     (if err = Some io_EOF then []
      else [Debug (Join cols '' | ''), Debug (Join (map quote dest) '' | '')])"
  by (simp add: RowsNext_def writeValues_Join)

text \<open>
  On an example, with values quoted by enclosing them in double quotes: nothing at
  \<^verbatim>\<open>io.EOF\<close>, and the two lines \<^verbatim>\<open>id | name\<close> and \<^verbatim>\<open>"7" | "x"\<close> otherwise.
\<close>

theorem RowsNext_logs_witness:
  "fst (RowsNext (\<lambda>v. CHR 0x22 # v @ [CHR 0x22]) [''id'', ''name''] ([''7'', ''x''], Some io_EOF)) = []
   \<and> fst (RowsNext (\<lambda>v. CHR 0x22 # v @ [CHR 0x22]) [''id'', ''name''] ([''7'', ''x''], None))
       = [Debug ''id | name'', Debug [CHR 0x22, CHR ''7'', CHR 0x22, CHR '' '', CHR ''|'', CHR '' '', CHR 0x22, CHR ''x'', CHR 0x22]]"
  using RowsNext_logs [of "\<lambda>v. CHR 0x22 # v @ [CHR 0x22]" "[''id'', ''name'']" "[''7'', ''x'']" "Some io_EOF"]
    RowsNext_logs [of "\<lambda>v. CHR 0x22 # v @ [CHR 0x22]" "[''id'', ''name'']" "[''7'', ''x'']" None]
  by simp


subsection \<open>Opening\<close>

lemma sample_mysql:
  "\<not> IsSQLite (sample_env t) (ConnectionString (sample_options ''mysql://host/db''))"
  "\<not> IsPostgres (sample_env t) (ConnectionString (sample_options ''mysql://host/db''))"
  by (simp_all add: sample_env_def sample_options_def HasPrefix_def)

lemma sample_mysql_Open:
  "Open (sample_env t) (sample_options ''mysql://host/db'')
     = Inl (ErrorfInvalidConnectionString ''mysql://host/db'')"
  by (simp add: Open_def selectDriver_def sample_env_def sample_options_def HasPrefix_def)

text \<open>
  C5. When the connection string is neither of the embedded kind nor of the networked kind,
  \<^verbatim>\<open>Open\<close> returns the error of an invalid connection string, and so no handle.
\<close>

theorem Open_unrecognized_descriptor:
  "\<not> IsSQLite e (ConnectionString opts) \<Longrightarrow> \<not> IsPostgres e (ConnectionString opts) \<Longrightarrow>
     Open e opts = Inl (ErrorfInvalidConnectionString (ConnectionString opts))"
  by (simp add: Open_def selectDriver_def)

theorem Open_unrecognized_descriptor_witness:
  "\<not> IsSQLite (sample_env True) (ConnectionString (sample_options ''mysql://host/db''))
   \<and> \<not> IsPostgres (sample_env True) (ConnectionString (sample_options ''mysql://host/db''))
   \<and> Open (sample_env True) (sample_options ''mysql://host/db'')
       = Inl (ErrorfInvalidConnectionString ''mysql://host/db'')"
  using sample_mysql [of True]
    Open_unrecognized_descriptor [OF sample_mysql [of True]]
  by (simp add: sample_options_def)

text \<open>
  C10. When \<^verbatim>\<open>Open\<close> returns an error, \<^verbatim>\<open>OpenWithWriter\<close> returns that error, with no handle
  and no context, and the package state is as it was: the counter is not incremented and no
  token is registered.
\<close>

theorem OpenWithWriter_failure_atomic:
  "Open e opts = Inl err \<Longrightarrow> OpenWithWriter e st opts w = (st, Inl err)"
  by (simp add: OpenWithWriter_def)

theorem OpenWithWriter_failure_atomic_witness:
  "Open (sample_env False) (sample_options ''mysql://host/db'')
     = Inl (ErrorfInvalidConnectionString ''mysql://host/db'')
   \<and> OpenWithWriter (sample_env False) \<lparr>dbToWriter = [''1'' \<mapsto> Some ''roomserver''], instCount = 1\<rparr>
         (sample_options ''mysql://host/db'') (Some ''syncapi'')
       = (\<lparr>dbToWriter = [''1'' \<mapsto> Some ''roomserver''], instCount = 1\<rparr>,
          Inl (ErrorfInvalidConnectionString ''mysql://host/db''))"
  using sample_mysql_Open [of False]
    OpenWithWriter_failure_atomic [OF sample_mysql_Open [of False],
      of "\<lparr>dbToWriter = [''1'' \<mapsto> Some ''roomserver''], instCount = 1\<rparr>" "Some ''syncapi''"]
  by simp

text \<open>
  Which handles get the pool settings. Without tracing an embedded connection gets none,
  and a networked connection gets all three, whether traced or not, provided the embedded
  driver is not itself called \<^verbatim>\<open>postgres\<close> or \<^verbatim>\<open>postgres-trace\<close>.
\<close>

lemma Open_sqlite_untraced_no_pool:
  "\<not> tracingEnabled e \<Longrightarrow> IsSQLite e (ConnectionString opts) \<Longrightarrow> Open e opts = Inr db \<Longrightarrow>
     settings db = []"
  by (auto simp: Open_def selectDriver_def Let_def split: sum.splits option.splits)

lemma Open_postgres_sets_pool:
  "\<not> IsSQLite e (ConnectionString opts) \<Longrightarrow> IsPostgres e (ConnectionString opts) \<Longrightarrow>
   SQLiteDriverName e \<noteq> ''postgres'' \<Longrightarrow> SQLiteDriverName e \<noteq> ''postgres-trace'' \<Longrightarrow>
   Open e opts = Inr db \<Longrightarrow>
     settings db =
       [SetMaxOpenConns (MaxOpenConns opts), SetMaxIdleConns (MaxIdleConns opts),
        SetConnMaxLifetime (ConnMaxLifetime opts)]"
  by (auto simp: Open_def selectDriver_def Let_def split: sum.splits option.splits if_splits)

lemma sample_sqlite:
  "IsSQLite (sample_env t) (ConnectionString (sample_options ''file:dendrite.db''))"
  by (simp add: sample_env_def sample_options_def HasPrefix_def)

lemma sample_sqlite_traced_Open:
  "Open (sample_env True) (sample_options ''file:dendrite.db'') =
     Inr \<lparr>driverName = ''sqlite3-trace'', dataSourceName = ''dendrite.db'',
          settings = [SetMaxOpenConns 100, SetMaxIdleConns 2, SetConnMaxLifetime (- 1)]\<rparr>"
  by (simp add: Open_def selectDriver_def sample_env_def sample_options_def HasPrefix_def)

lemma sample_sqlite_untraced_Open:
  "Open (sample_env False) (sample_options ''file:dendrite.db'') =
     Inr \<lparr>driverName = ''sqlite3'', dataSourceName = ''dendrite.db'', settings = []\<rparr>"
  by (simp add: Open_def selectDriver_def sample_env_def sample_options_def HasPrefix_def)

text \<open>
  C2 fails on the code for an embedded connection opened with tracing on. \<^verbatim>\<open>Open\<close> decides
  whether to apply the pool settings by comparing \<^verbatim>\<open>driverName\<close> with \<^verbatim>\<open>SQLiteDriverName()\<close>,
  after the suffix \<^verbatim>\<open>-trace\<close> has been appended to \<^verbatim>\<open>driverName\<close>; the two then differ,
  whatever \<^verbatim>\<open>SQLiteDriverName()\<close> is, and the handle of the embedded database gets the
  maximum of open connections, the maximum of idle connections and the maximum lifetime of
  the options.
\<close>

theorem Open_sqlite_traced_sets_pool:
  "tracingEnabled e \<Longrightarrow> IsSQLite e (ConnectionString opts) \<Longrightarrow> Open e opts = Inr db \<Longrightarrow>
     settings db =
       [SetMaxOpenConns (MaxOpenConns opts), SetMaxIdleConns (MaxIdleConns opts),
        SetConnMaxLifetime (ConnMaxLifetime opts)]"
  by (auto simp: Open_def selectDriver_def Let_def split: sum.splits option.splits)

text \<open>
  In the sample environment with tracing on, the handle for \<^verbatim>\<open>file:dendrite.db\<close> is opened
  with the driver \<^verbatim>\<open>sqlite3-trace\<close> and carries the three settings.
\<close>

theorem Open_sqlite_traced_sets_pool_witness:
  "tracingEnabled (sample_env True)
   \<and> IsSQLite (sample_env True) (ConnectionString (sample_options ''file:dendrite.db''))
   \<and> Open (sample_env True) (sample_options ''file:dendrite.db'') =
       Inr \<lparr>driverName = ''sqlite3-trace'', dataSourceName = ''dendrite.db'',
            settings = [SetMaxOpenConns 100, SetMaxIdleConns 2, SetConnMaxLifetime (- 1)]\<rparr>
   \<and> settings \<lparr>driverName = ''sqlite3-trace'', dataSourceName = ''dendrite.db'',
            settings = [SetMaxOpenConns 100, SetMaxIdleConns 2, SetConnMaxLifetime (- 1)]\<rparr> =
       [SetMaxOpenConns (MaxOpenConns (sample_options ''file:dendrite.db'')),
        SetMaxIdleConns (MaxIdleConns (sample_options ''file:dendrite.db'')),
        SetConnMaxLifetime (ConnMaxLifetime (sample_options ''file:dendrite.db''))]"
proof -
  have t: "tracingEnabled (sample_env True)" by (simp add: sample_env_def)
  show ?thesis
    using t sample_sqlite [of True] sample_sqlite_traced_Open
      Open_sqlite_traced_sets_pool [OF t sample_sqlite [of True] sample_sqlite_traced_Open]
    by blast
qed


subsection \<open>The interceptor\<close>

lemma Infof_logStatement:
  "(\<exists>m. Infof m \<in> set (logStatement safe query args err)) =
     (safe \<noteq> [] \<and> \<not> HasPrefix query ''SELECT '')"
  by (auto simp: logStatement_def)

lemma safeLabel_cases:
  "safeLabel Safe registry ctx =
     (case ctx CtxDBInstance of
        None \<Rightarrow> Inr []
      | Some (OtherValue v) \<Rightarrow> Inl TypeAssertion
      | Some (StringValue t) \<Rightarrow>
          Inr (case index registry t of None \<Rightarrow> ''no writer for key '' @ t | Some w \<Rightarrow> Safe w))"
  by (simp add: safeLabel_def split: option.splits any.splits)

lemma sample_insert: "\<not> HasPrefix ''INSERT INTO t VALUES (1)'' ''SELECT ''"
  by (simp add: HasPrefix_def)

lemma sample_select: "HasPrefix ''SELECT * FROM t'' ''SELECT ''"
  by (simp add: HasPrefix_def)

text \<open>
  The audit entry does not wait for a registered Writer. A context whose token \<open>7\<close> is in
  no registry gets the label \<^verbatim>\<open>no writer for key 7\<close>, which is not empty, and an \<^verbatim>\<open>INSERT\<close>
  under it is audited. In the other direction, an \<^verbatim>\<open>INSERT\<close> under a registered Writer
  whose description is the empty string is not audited.
\<close>

theorem audit_without_registered_Writer:
  "fst (StmtQueryContext id Map.empty [CtxDBInstance \<mapsto> StringValue ''7'']
          ''INSERT INTO t VALUES (1)'' ([] :: nat list) ((), None)) =
     [Infof ''unsafe: no writer for key 7 -- INSERT INTO t VALUES (1)'',
      DebugQuery None ''no writer for key 7'' ''INSERT INTO t VALUES (1)'' []]
   \<and> fst (StmtExecContext id [''1'' \<mapsto> Some []] [CtxDBInstance \<mapsto> StringValue ''1'']
          ''INSERT INTO t VALUES (1)'' ([] :: nat list) ((), None)) =
     [DebugQuery None [] ''INSERT INTO t VALUES (1)'' []]"
  by (simp add: StmtQueryContext_def StmtExecContext_def safeLabel_def logStatement_def
      index_def HasPrefix_def)

text \<open>
  C1, as amended. A statement execution through \<^verbatim>\<open>StmtQueryContext\<close> or \<^verbatim>\<open>StmtExecContext\<close>
  emits the audit entry if and only if the statement text does not begin with
  \<^verbatim>\<open>"SELECT "\<close> and the context carries a connection token, a string, whose safety label is
  not empty: the token either resolves to no Writer, and the label is the text for an
  unregistered token, or resolves to a Writer whose description is not empty. In
  particular a statement whose context carries no token is never audited.
\<close>

theorem audit_iff_label:
  "(\<exists>m. Infof m \<in> set (fst (StmtQueryContext Safe registry ctx query args (rows, err)))) =
     (\<not> HasPrefix query ''SELECT '' \<and>
      (\<exists>t. ctx CtxDBInstance = Some (StringValue t) \<and>
           (case index registry t of None \<Rightarrow> True | Some w \<Rightarrow> Safe w \<noteq> [])))
   \<and> (\<exists>m. Infof m \<in> set (fst (StmtExecContext Safe registry ctx query args (result, err)))) =
     (\<not> HasPrefix query ''SELECT '' \<and>
      (\<exists>t. ctx CtxDBInstance = Some (StringValue t) \<and>
           (case index registry t of None \<Rightarrow> True | Some w \<Rightarrow> Safe w \<noteq> [])))"
proof -
  have q: "(\<exists>m. Infof m \<in> set (fst (StmtQueryContext Safe registry ctx query args (rows, err)))) =
     (\<not> HasPrefix query ''SELECT '' \<and>
      (\<exists>t. ctx CtxDBInstance = Some (StringValue t) \<and>
           (case index registry t of None \<Rightarrow> True | Some w \<Rightarrow> Safe w \<noteq> [])))"
    by (auto simp: StmtQueryContext_def safeLabel_cases Infof_logStatement
        split: option.splits any.splits)
  have x: "(\<exists>m. Infof m \<in> set (fst (StmtExecContext Safe registry ctx query args (result, err)))) =
     (\<not> HasPrefix query ''SELECT '' \<and>
      (\<exists>t. ctx CtxDBInstance = Some (StringValue t) \<and>
           (case index registry t of None \<Rightarrow> True | Some w \<Rightarrow> Safe w \<noteq> [])))"
    by (auto simp: StmtExecContext_def safeLabel_cases Infof_logStatement
        split: option.splits any.splits)
  from q x show ?thesis by blast
qed

text \<open>
  With the Writer \<^verbatim>\<open>roomserver\<close> registered under the token \<open>1\<close>: an \<^verbatim>\<open>INSERT\<close> is audited
  under the token \<open>1\<close> and under the unregistered token \<open>2\<close>; a \<^verbatim>\<open>SELECT\<close> under the
  token \<open>1\<close> is not, nor is an \<^verbatim>\<open>INSERT\<close> under a context without token.
\<close>

theorem audit_iff_label_witness:
  "(\<exists>m. Infof m \<in> set (fst (StmtQueryContext id [''1'' \<mapsto> Some ''roomserver'']
        [CtxDBInstance \<mapsto> StringValue ''1''] ''INSERT INTO t VALUES (1)'' ([] :: nat list)
        ((), None))))
   \<and> (\<exists>m. Infof m \<in> set (fst (StmtQueryContext id [''1'' \<mapsto> Some ''roomserver'']
        [CtxDBInstance \<mapsto> StringValue ''2''] ''INSERT INTO t VALUES (1)'' ([] :: nat list)
        ((), None))))
   \<and> \<not> (\<exists>m. Infof m \<in> set (fst (StmtQueryContext id [''1'' \<mapsto> Some ''roomserver'']
        [CtxDBInstance \<mapsto> StringValue ''1''] ''SELECT * FROM t'' ([] :: nat list)
        ((), None))))
   \<and> \<not> (\<exists>m. Infof m \<in> set (fst (StmtExecContext id [''1'' \<mapsto> Some ''roomserver'']
        Map.empty ''INSERT INTO t VALUES (1)'' ([] :: nat list) ((), None))))"
  using audit_iff_label [of id "[''1'' \<mapsto> Some ''roomserver'']"
        "[CtxDBInstance \<mapsto> StringValue ''1'']" "''INSERT INTO t VALUES (1)''" "[] :: nat list"
        "()" None "()"]
    audit_iff_label [of id "[''1'' \<mapsto> Some ''roomserver'']"
        "[CtxDBInstance \<mapsto> StringValue ''2'']" "''INSERT INTO t VALUES (1)''" "[] :: nat list"
        "()" None "()"]
    audit_iff_label [of id "[''1'' \<mapsto> Some ''roomserver'']"
        "[CtxDBInstance \<mapsto> StringValue ''1'']" "''SELECT * FROM t''" "[] :: nat list"
        "()" None "()"]
    audit_iff_label [of id "[''1'' \<mapsto> Some ''roomserver'']"
        Map.empty "''INSERT INTO t VALUES (1)''" "[] :: nat list"
        "()" None "()"]
  by (simp add: sample_insert sample_select index_def)

text \<open>
  When the value under the token key is not a string, the type assertion panics after the
  delegated call has returned, and the interceptor returns neither its rows nor its
  error.
\<close>

theorem interceptor_panics_on_other_value:
  "snd (StmtQueryContext id Map.empty [CtxDBInstance \<mapsto> OtherValue 42] ''SELECT 1''
          ([] :: nat list) (''rows'', None)) = Inl TypeAssertion
   \<and> snd (StmtExecContext id Map.empty [CtxDBInstance \<mapsto> OtherValue 42] ''SELECT 1''
          ([] :: nat list) (''result'', None)) = Inl TypeAssertion"
  by (simp add: StmtQueryContext_def StmtExecContext_def safeLabel_def)

text \<open>
  C8, as amended. For every call whose context holds no value or a string under the token
  key, \<^verbatim>\<open>StmtQueryContext\<close> and \<^verbatim>\<open>StmtExecContext\<close> return the rows or result and the error
  of the delegated call, as they are; \<^verbatim>\<open>RowsNext\<close> returns the error of the delegated fetch,
  as it is, for every call.
\<close>

theorem interceptor_returns_delegated:
  "(\<forall>v. ctx CtxDBInstance \<noteq> Some (OtherValue v)) \<Longrightarrow>
     snd (StmtQueryContext Safe registry ctx query args (rows, err)) = Inr (rows, err)
     \<and> snd (StmtExecContext Safe registry ctx query args (result, err)) = Inr (result, err)
     \<and> snd (RowsNext quote cols (dest, err)) = err"
  by (auto simp: StmtQueryContext_def StmtExecContext_def RowsNext_def safeLabel_cases
      split: option.splits any.splits)

text \<open>An error of the driver comes back as it is, from each of the three.\<close>

theorem interceptor_returns_delegated_witness:
  "snd (StmtQueryContext id [''1'' \<mapsto> Some ''roomserver''] [CtxDBInstance \<mapsto> StringValue ''1'']
          ''INSERT INTO t VALUES (1)'' ([] :: nat list) (''rows'', Some (LibraryError ''locked'')))
     = Inr (''rows'', Some (LibraryError ''locked''))
   \<and> snd (StmtExecContext id [''1'' \<mapsto> Some ''roomserver''] [CtxDBInstance \<mapsto> StringValue ''1'']
          ''INSERT INTO t VALUES (1)'' ([] :: nat list) (''result'', Some (LibraryError ''locked'')))
     = Inr (''result'', Some (LibraryError ''locked''))
   \<and> snd (RowsNext id [''id''] ([''7''], Some (LibraryError ''locked'')) :: nat entry list \<times> error option)
     = Some (LibraryError ''locked'')"
proof -
  have s: "\<forall>v. [CtxDBInstance \<mapsto> StringValue ''1''] CtxDBInstance \<noteq> Some (OtherValue v)"
    by simp
  show ?thesis
    using interceptor_returns_delegated [of "[CtxDBInstance \<mapsto> StringValue ''1'']" id
        "[''1'' \<mapsto> Some ''roomserver'']" "''INSERT INTO t VALUES (1)''" "[] :: nat list"
        "''rows''" "Some (LibraryError ''locked'')" "''result''" id "[''id'']" "[''7'']", OF s]
    by simp
qed


subsection \<open>The counter\<close>

lemma wrap_int_id: "- (2 ^ 63) \<le> n \<Longrightarrow> n < 2 ^ 63 \<Longrightarrow> wrap_int n = n"
  by (simp add: wrap_int_def)

lemma wrap_int_max: "wrap_int (9223372036854775807 + 1) = - 9223372036854775808"
  by (simp add: wrap_int_def)

lemma wrap_int_range: "- (2 ^ 63) \<le> wrap_int n \<and> wrap_int n < 2 ^ 63"
proof -
  have "0 \<le> (n + 2 ^ 63) mod (2 ^ 64 :: int)" by simp
  moreover have "(n + 2 ^ 63) mod (2 ^ 64 :: int) < 2 ^ 64" by simp
  ultimately show ?thesis by (simp add: wrap_int_def)
qed

lemma wrap_int_add: "wrap_int (wrap_int a + b) = wrap_int (a + b)"
proof -
  have "(wrap_int a + b + 2 ^ 63) mod 2 ^ 64 = ((a + 2 ^ 63) mod 2 ^ 64 + b) mod (2 ^ 64 :: int)"
    by (simp add: wrap_int_def algebra_simps)
  also have "\<dots> = (a + 2 ^ 63 + b) mod 2 ^ 64"
    by (rule mod_add_left_eq)
  also have "\<dots> = (a + b + 2 ^ 63) mod 2 ^ 64"
    by (simp add: algebra_simps)
  finally show ?thesis by (simp add: wrap_int_def)
qed

lemma OpenWithWriter_cases:
  "OpenWithWriter e st opts w =
     (case Open e opts of
        Inl err \<Rightarrow> (st, Inl err)
      | Inr db \<Rightarrow>
          (st\<lparr>instCount := wrap_int (instCount st + 1),
               dbToWriter := (dbToWriter st)(Sprintf_d (wrap_int (instCount st + 1)) \<mapsto> w)\<rparr>,
           Inr (db, [CtxDBInstance \<mapsto> StringValue (Sprintf_d (wrap_int (instCount st + 1)))])))"
  by (simp add: OpenWithWriter_def Let_def split: sum.splits)


subsection \<open>The registry of Writers\<close>

text \<open>
  While the counter is below \<open>2 ^ 63 - 1\<close> the next increment does not wrap around, the
  invariant is kept, the token minted is new, and no entry is overwritten.
\<close>

lemma wrap_int_idem: "wrap_int (wrap_int n) = wrap_int n"
  using wrap_int_range [of n] by (simp add: wrap_int_id)

lemma next_count:
  "0 \<le> n \<Longrightarrow> n < 2 ^ 63 - 1 \<Longrightarrow> wrap_int (n + 1) = n + 1"
  by (simp add: wrap_int_id)

lemma minted_init: "minted sqlutil_init"
  by (simp add: minted_def sqlutil_init_def)

lemma minted_fresh:
  "minted st \<Longrightarrow> instCount st < 2 ^ 63 - 1 \<Longrightarrow>
     Sprintf_d (wrap_int (instCount st + 1)) \<notin> dom (dbToWriter st)"
proof
  assume m: "minted st" and b: "instCount st < 2 ^ 63 - 1"
    and "Sprintf_d (wrap_int (instCount st + 1)) \<in> dom (dbToWriter st)"
  then obtain k where "k \<in> {1..instCount st}"
      "Sprintf_d (wrap_int (instCount st + 1)) = Sprintf_d k"
    unfolding minted_def by blast
  moreover from m b have "wrap_int (instCount st + 1) = instCount st + 1"
    by (simp add: minted_def next_count)
  ultimately show False by (auto dest: Sprintf_d_inject)
qed

lemma minted_OpenWithWriter:
  "minted st \<Longrightarrow> instCount st < 2 ^ 63 - 1 \<Longrightarrow> minted (fst (OpenWithWriter e st opts w))"
proof -
  assume m: "minted st" and b: "instCount st < 2 ^ 63 - 1"
  from m b have n: "wrap_int (instCount st + 1) = instCount st + 1"
    by (simp add: minted_def next_count)
  from m show ?thesis
    by (auto simp: OpenWithWriter_cases minted_def n split: sum.splits)
qed

lemma counter_OpenWithWriter:
  "minted st \<Longrightarrow> instCount st < 2 ^ 63 - 1 \<Longrightarrow>
     instCount st \<le> instCount (fst (OpenWithWriter e st opts w))
     \<and> instCount (fst (OpenWithWriter e st opts w)) \<le> instCount st + 1"
proof -
  assume m: "minted st" and b: "instCount st < 2 ^ 63 - 1"
  from m b have n: "wrap_int (instCount st + 1) = instCount st + 1"
    by (simp add: minted_def next_count)
  show ?thesis
    by (simp add: OpenWithWriter_cases n split: sum.splits)
qed

lemma kept_OpenWithWriter:
  "minted st \<Longrightarrow> instCount st < 2 ^ 63 - 1 \<Longrightarrow> dbToWriter st t = Some W \<Longrightarrow>
     dbToWriter (fst (OpenWithWriter e st opts w)) t = Some W"
proof -
  assume m: "minted st" and b: "instCount st < 2 ^ 63 - 1" and t: "dbToWriter st t = Some W"
  from t have "t \<in> dom (dbToWriter st)" by blast
  with minted_fresh [OF m b] have "t \<noteq> Sprintf_d (wrap_int (instCount st + 1))" by blast
  with t show ?thesis
    by (simp add: OpenWithWriter_cases split: sum.splits)
qed

lemma open_all_bounded:
  "minted st \<Longrightarrow> instCount st + int (length calls) \<le> 2 ^ 63 - 1 \<Longrightarrow>
     minted (open_all e st calls)
     \<and> instCount st \<le> instCount (open_all e st calls)
     \<and> instCount (open_all e st calls) \<le> instCount st + int (length calls)"
proof (induction e st calls rule: open_all.induct)
  case (1 e st)
  then show ?case by simp
next
  case (2 e st dbProperties w rest)
  let ?st = "fst (OpenWithWriter e st dbProperties w)"
  from "2.prems" have b: "instCount st < 2 ^ 63 - 1" by simp
  from "2.prems"(1) b have m: "minted ?st" by (rule minted_OpenWithWriter)
  from counter_OpenWithWriter [OF "2.prems"(1) b, of e dbProperties w]
  have c: "instCount st \<le> instCount ?st" "instCount ?st \<le> instCount st + 1" by simp_all
  from c "2.prems" have "instCount ?st + int (length rest) \<le> 2 ^ 63 - 1" by simp
  from "2.IH" [OF m this] c show ?case by simp
qed

lemma kept_open_all:
  "minted st \<Longrightarrow> instCount st + int (length calls) \<le> 2 ^ 63 - 1 \<Longrightarrow>
   dbToWriter st t = Some W \<Longrightarrow> dbToWriter (open_all e st calls) t = Some W"
proof (induction e st calls rule: open_all.induct)
  case (1 e st)
  then show ?case by simp
next
  case (2 e st dbProperties w rest)
  let ?st = "fst (OpenWithWriter e st dbProperties w)"
  from "2.prems" have b: "instCount st < 2 ^ 63 - 1" by simp
  from "2.prems"(1) b have m: "minted ?st" by (rule minted_OpenWithWriter)
  from counter_OpenWithWriter [OF "2.prems"(1) b, of e dbProperties w] "2.prems"
  have l: "instCount ?st + int (length rest) \<le> 2 ^ 63 - 1" by simp
  from "2.prems"(1) b "2.prems"(3) have "dbToWriter ?st t = Some W"
    by (rule kept_OpenWithWriter)
  from "2.IH" [OF m l this] show ?case by simp
qed

lemma open_all_append: "open_all e st (xs @ ys) = open_all e (open_all e st xs) ys"
  by (induction e st xs rule: open_all.induct) simp_all

lemma sample_run:
  "open_all (sample_env False) sqlutil_init
     [(sample_options ''file:roomserver.db'', Some ''roomserver''),
      (sample_options ''mysql://host/db'', Some ''nobody'')]
   = \<lparr>dbToWriter = [''1'' \<mapsto> Some ''roomserver''], instCount = 1\<rparr>"
  by (simp add: OpenWithWriter_cases Open_def selectDriver_def sample_env_def sample_options_def
      HasPrefix_def sqlutil_init_def wrap_int_def Sprintf_d_def digits.simps digit_def)

lemma sample_next:
  "OpenWithWriter (sample_env False) \<lparr>dbToWriter = [''1'' \<mapsto> Some ''roomserver''], instCount = 1\<rparr>
     (sample_options ''file:userapi.db'') (Some ''userapi'')
   = (\<lparr>dbToWriter = [''1'' \<mapsto> Some ''roomserver'', ''2'' \<mapsto> Some ''userapi''], instCount = 2\<rparr>,
      Inr (\<lparr>driverName = ''sqlite3'', dataSourceName = ''userapi.db'', settings = []\<rparr>,
           [CtxDBInstance \<mapsto> StringValue ''2'']))"
  by (simp add: OpenWithWriter_cases Open_def selectDriver_def sample_env_def sample_options_def
      HasPrefix_def wrap_int_def Sprintf_d_def digits.simps digit_def)

lemma sample_bound:
  "int (length [(sample_options ''file:roomserver.db'', Some ''roomserver''),
                (sample_options ''mysql://host/db'', Some ''nobody'')])
   + int (length [(sample_options ''postgres://host/db'', Some ''syncapi'')]) < 2 ^ 63 - 1"
  by simp

text \<open>
  What a run of \<open>n\<close> successful calls with the same options and Writer leaves, whatever
  \<open>n\<close> is: the counter holds \<open>n\<close> wrapped around, and the token \<open>1\<close> of the first call is
  registered. When the counter has come back to 0, the next call mints the token \<open>1\<close>
  again.
\<close>

lemma Sprintf_d_one: "Sprintf_d (wrap_int 1) = ''1''"
  by (simp add: wrap_int_def Sprintf_d_def digits.simps digit_def)



lemma count_replicate:
  "Open e opts = Inr db \<Longrightarrow> wrap_int (instCount st) = instCount st \<Longrightarrow>
     instCount (open_all e st (replicate n (opts, w))) = wrap_int (instCount st + int n)"
proof (induction n arbitrary: st)
  case 0
  then show ?case by simp
next
  case (Suc n)
  let ?st = "fst (OpenWithWriter e st opts w)"
  from Suc.prems(1) have c: "instCount ?st = wrap_int (instCount st + 1)"
    by (simp add: OpenWithWriter_cases)
  then have "wrap_int (instCount ?st) = instCount ?st" by (simp add: wrap_int_idem)
  from Suc.IH [OF Suc.prems(1) this]
  have "instCount (open_all e ?st (replicate n (opts, w)))
      = wrap_int (wrap_int (instCount st + 1) + int n)"
    by (simp add: c)
  also have "\<dots> = wrap_int (instCount st + 1 + int n)" by (rule wrap_int_add)
  finally show ?case by (simp add: add.commute add.left_commute)
qed



lemma reopen_at_zero:
  assumes "Open e opts = Inr db" and "instCount st = 0"
  shows "snd (OpenWithWriter e st opts w) = Inr (db, [CtxDBInstance \<mapsto> StringValue ''1''])"
    and "dbToWriter (fst (OpenWithWriter e st opts w)) ''1'' = Some w"
  using assms by (simp_all add: OpenWithWriter_cases Sprintf_d_one)

lemma open_all_replicate_Suc:
  "open_all e st (replicate (Suc n) (opts, w)) =
     fst (OpenWithWriter e (open_all e st (replicate n (opts, w))) opts w)"
proof -
  have "replicate (Suc n) (opts, w) = replicate n (opts, w) @ [(opts, w)]"
    by (simp add: replicate_append_same)
  then show ?thesis by (simp only: open_all_append open_all.simps)
qed

lemma remapped_after_wrap:
  assumes "Open e opts = Inr db" and "wrap_int (instCount st) = instCount st"
    and "0 < n" and "wrap_int (instCount st + int n - 1) = 0"
  shows "dbToWriter (open_all e st (replicate n (opts, w))) ''1'' = Some w"
proof -
  from assms(3) obtain m where n: "n = Suc m" by (cases n) auto
  from count_replicate [OF assms(1,2), of m w] assms(4)
  have "instCount (open_all e st (replicate m (opts, w))) = 0" by (simp add: n)
  from reopen_at_zero(2) [OF assms(1) this] show ?thesis
    by (simp only: n open_all_replicate_Suc)
qed

lemma sample_Open_roomserver:
  "Open (sample_env False) (sample_options ''file:roomserver.db'') =
     Inr \<lparr>driverName = ''sqlite3'', dataSourceName = ''roomserver.db'', settings = []\<rparr>"
  by (simp add: Open_def selectDriver_def sample_env_def sample_options_def HasPrefix_def)

lemma sample_Open_userapi:
  "Open (sample_env False) (sample_options ''file:userapi.db'') =
     Inr \<lparr>driverName = ''sqlite3'', dataSourceName = ''userapi.db'', settings = []\<rparr>"
  by (simp add: Open_def selectDriver_def sample_env_def sample_options_def HasPrefix_def)




lemma last_logStatement: "last (logStatement safe query args err) = DebugQuery err safe query args"
  by (simp add: logStatement_def)

lemma label_of_token:
  "ctx CtxDBInstance = Some (StringValue t) \<Longrightarrow>
     last (fst (StmtQueryContext Safe registry ctx query args (rows, err))) =
       DebugQuery err
         (case index registry t of None \<Rightarrow> ''no writer for key '' @ t | Some w \<Rightarrow> Safe w)
         query args"
  by (simp add: StmtQueryContext_def safeLabel_cases last_logStatement)

lemma OpenWithWriter_registers:
  assumes "OpenWithWriter e st opts w = (st', Inr (db, ctx))"
  shows "ctx = [CtxDBInstance \<mapsto> StringValue (Sprintf_d (instCount st'))]"
    and "dbToWriter st' (Sprintf_d (instCount st')) = Some w"
    and "st' = fst (OpenWithWriter e st opts w)"
  using assms by (auto simp: OpenWithWriter_cases split: sum.splits)

lemma sample_nil:
  "OpenWithWriter (sample_env False) sqlutil_init (sample_options ''file:userapi.db'')
       (None :: string option)
     = (\<lparr>dbToWriter = [''1'' \<mapsto> None], instCount = 1\<rparr>,
        Inr (\<lparr>driverName = ''sqlite3'', dataSourceName = ''userapi.db'', settings = []\<rparr>,
             [CtxDBInstance \<mapsto> StringValue ''1'']))"
  by (simp add: OpenWithWriter_cases sample_Open_userapi sqlutil_init_def Sprintf_d_one)
    (simp add: wrap_int_def)

text \<open>
  A nil Writer is registered like any other: \<^verbatim>\<open>OpenWithWriter\<close> succeeds, the token is
  minted and stored, and the interceptor, which cannot tell a nil entry from a missing
  one, gives a query under the returned context the label \<^verbatim>\<open>no writer for key 1\<close>. And
  the label of a Writer does not last for ever: \<^verbatim>\<open>roomserver\<close> is registered under the
  token \<open>1\<close>, and after \<open>2 ^ 64\<close> further successful calls for \<^verbatim>\<open>userapi\<close>, the last of
  which mints the token \<open>1\<close> again, a query under the context of \<^verbatim>\<open>roomserver\<close> has the
  label \<^verbatim>\<open>userapi\<close>.
\<close>

theorem nil_Writer_and_wrapped_label:
  "OpenWithWriter (sample_env False) sqlutil_init (sample_options ''file:userapi.db'')
       (None :: string option)
     = (\<lparr>dbToWriter = [''1'' \<mapsto> None], instCount = 1\<rparr>,
        Inr (\<lparr>driverName = ''sqlite3'', dataSourceName = ''userapi.db'', settings = []\<rparr>,
             [CtxDBInstance \<mapsto> StringValue ''1'']))
   \<and> last (fst (StmtQueryContext id [''1'' \<mapsto> None] [CtxDBInstance \<mapsto> StringValue ''1'']
         ''SELECT 1'' ([] :: nat list) ((), None)))
     = DebugQuery None ''no writer for key 1'' ''SELECT 1'' []
   \<and> OpenWithWriter (sample_env False) sqlutil_init (sample_options ''file:roomserver.db'')
       (Some ''roomserver'')
     = (\<lparr>dbToWriter = [''1'' \<mapsto> Some ''roomserver''], instCount = 1\<rparr>,
        Inr (\<lparr>driverName = ''sqlite3'', dataSourceName = ''roomserver.db'', settings = []\<rparr>,
             [CtxDBInstance \<mapsto> StringValue ''1'']))
   \<and> last (fst (StmtQueryContext id
         (dbToWriter (open_all (sample_env False)
            \<lparr>dbToWriter = [''1'' \<mapsto> Some ''roomserver''], instCount = 1\<rparr>
            (replicate 18446744073709551616 (sample_options ''file:userapi.db'', Some ''userapi''))))
         [CtxDBInstance \<mapsto> StringValue ''1''] ''SELECT 1'' ([] :: nat list) ((), None)))
     = DebugQuery None ''userapi'' ''SELECT 1'' []"
proof -
  let ?st = "\<lparr>dbToWriter = [''1'' \<mapsto> Some ''roomserver''], instCount = 1\<rparr>"
  have nil: "OpenWithWriter (sample_env False) sqlutil_init (sample_options ''file:userapi.db'')
       (None :: string option)
     = (\<lparr>dbToWriter = [''1'' \<mapsto> None], instCount = 1\<rparr>,
        Inr (\<lparr>driverName = ''sqlite3'', dataSourceName = ''userapi.db'', settings = []\<rparr>,
             [CtxDBInstance \<mapsto> StringValue ''1'']))"
    by (simp add: OpenWithWriter_cases sample_Open_userapi sqlutil_init_def Sprintf_d_one)
      (simp add: wrap_int_def)
  have nil_label: "last (fst (StmtQueryContext id [''1'' \<mapsto> None]
         [CtxDBInstance \<mapsto> StringValue ''1''] ''SELECT 1'' ([] :: nat list) ((), None)))
     = DebugQuery None ''no writer for key 1'' ''SELECT 1'' []"
    by (simp add: label_of_token index_def)
  have first: "OpenWithWriter (sample_env False) sqlutil_init
       (sample_options ''file:roomserver.db'') (Some ''roomserver'')
     = (?st,
        Inr (\<lparr>driverName = ''sqlite3'', dataSourceName = ''roomserver.db'', settings = []\<rparr>,
             [CtxDBInstance \<mapsto> StringValue ''1'']))"
    by (simp add: OpenWithWriter_cases sample_Open_roomserver sqlutil_init_def Sprintf_d_one)
      (simp add: wrap_int_def)
  have "wrap_int (instCount ?st) = instCount ?st" by (simp add: wrap_int_def)
  moreover have "(0::nat) < 18446744073709551616" by simp
  moreover have "wrap_int (instCount ?st + int 18446744073709551616 - 1) = 0"
    by (simp add: wrap_int_def)
  ultimately have "dbToWriter (open_all (sample_env False) ?st
       (replicate 18446744073709551616 (sample_options ''file:userapi.db'', Some ''userapi'')))
       ''1'' = Some (Some ''userapi'')"
    by (rule remapped_after_wrap [OF sample_Open_userapi])
  then have wrapped: "last (fst (StmtQueryContext id
         (dbToWriter (open_all (sample_env False) ?st
            (replicate 18446744073709551616 (sample_options ''file:userapi.db'', Some ''userapi''))))
         [CtxDBInstance \<mapsto> StringValue ''1''] ''SELECT 1'' ([] :: nat list) ((), None)))
     = DebugQuery None ''userapi'' ''SELECT 1'' []"
    by (simp only: label_of_token [of "[CtxDBInstance \<mapsto> StringValue ''1'']" "''1''"] index_def
        fun_upd_same option.case id_apply)
  show ?thesis
    by (intro conjI nil nil_label first wrapped)
qed

text \<open>
  C6, as amended. After a successful \<^verbatim>\<open>OpenWithWriter(options, W)\<close> with a Writer \<open>W\<close> that
  is not nil, a query under the returned context has the description of \<open>W\<close> as its safety
  label: right after the call, from whatever state it was made, and also after further
  \<^verbatim>\<open>OpenWithWriter\<close> calls, when fewer than \<open>2 ^ 63 - 1\<close> calls have been made in all since
  the start. With a nil \<open>W\<close> the label is \<^verbatim>\<open>no writer for key\<close> followed by the token. A query
  whose context carries no token has the empty label. A query whose context carries a
  token that the registry does not hold has the label \<^verbatim>\<open>no writer for key\<close> followed by the
  token, which is not the empty label. The label is read off the trace entry, the last
  entry that \<^verbatim>\<open>StmtQueryContext\<close> logs.
\<close>

theorem OpenWithWriter_label:
  "(OpenWithWriter e st opts (Some w) = (st', Inr (db, ctx)) \<longrightarrow>
      last (fst (StmtQueryContext Safe (dbToWriter st') ctx query args (rows, err)))
        = DebugQuery err (Safe w) query args)
   \<and> (int (length calls) + int (length later) < 2 ^ 63 - 1
      \<and> OpenWithWriter e (open_all e sqlutil_init calls) opts (Some w) = (st'', Inr (db', ctx')) \<longrightarrow>
      last (fst (StmtQueryContext Safe (dbToWriter (open_all e st'' later)) ctx' query args
                   (rows, err)))
        = DebugQuery err (Safe w) query args)
   \<and> (OpenWithWriter e st opts None = (st', Inr (db, ctx)) \<longrightarrow>
      last (fst (StmtQueryContext Safe (dbToWriter st') ctx query args (rows, err)))
        = DebugQuery err (''no writer for key '' @ Sprintf_d (instCount st')) query args)
   \<and> (ctx0 CtxDBInstance = None \<longrightarrow>
        fst (StmtQueryContext Safe registry ctx0 query args (rows, err))
          = [DebugQuery err [] query args])
   \<and> (ctx1 CtxDBInstance = Some (StringValue t) \<and> registry t = None \<longrightarrow>
        last (fst (StmtQueryContext Safe registry ctx1 query args (rows, err)))
          = DebugQuery err (''no writer for key '' @ t) query args
        \<and> ''no writer for key '' @ t \<noteq> [])"
proof -
  have now: "last (fst (StmtQueryContext Safe (dbToWriter st') ctx query args (rows, err)))
        = DebugQuery err (Safe w) query args"
    if "OpenWithWriter e st opts (Some w) = (st', Inr (db, ctx))"
    using OpenWithWriter_registers(1,2) [OF that]
    by (simp add: label_of_token index_def)
  have after: "last (fst (StmtQueryContext Safe (dbToWriter (open_all e st'' later)) ctx' query args
                   (rows, err))) = DebugQuery err (Safe w) query args"
    if bound: "int (length calls) + int (length later) < 2 ^ 63 - 1"
      and o: "OpenWithWriter e (open_all e sqlutil_init calls) opts (Some w)
                = (st'', Inr (db', ctx'))"
  proof -
    let ?st = "open_all e sqlutil_init calls"
    have i: "instCount (sqlutil_init :: 'a sqlutil) = 0" by (simp add: sqlutil_init_def)
    from bound have "instCount (sqlutil_init :: 'a sqlutil) + int (length calls) \<le> 2 ^ 63 - 1"
      by (simp add: i)
    from open_all_bounded [OF minted_init this, of e]
    have m: "minted ?st" and c: "instCount ?st \<le> int (length calls)" by (simp_all add: i)
    from c bound have b: "instCount ?st < 2 ^ 63 - 1" by simp
    note r = OpenWithWriter_registers [OF o]
    from m b have m'': "minted st''" unfolding r(3) by (rule minted_OpenWithWriter)
    from counter_OpenWithWriter [OF m b, of e opts "Some w"] c bound
    have l: "instCount st'' + int (length later) \<le> 2 ^ 63 - 1" unfolding r(3) by simp
    from kept_open_all [OF m'' l r(2)]
    have "dbToWriter (open_all e st'' later) (Sprintf_d (instCount st'')) = Some (Some w)" .
    with r(1) show ?thesis by (simp add: label_of_token index_def)
  qed
  have nil: "last (fst (StmtQueryContext Safe (dbToWriter st') ctx query args (rows, err)))
        = DebugQuery err (''no writer for key '' @ Sprintf_d (instCount st')) query args"
    if "OpenWithWriter e st opts None = (st', Inr (db, ctx))"
    using OpenWithWriter_registers(1,2) [OF that]
    by (simp add: label_of_token index_def)
  have b: "ctx0 CtxDBInstance = None \<longrightarrow>
        fst (StmtQueryContext Safe registry ctx0 query args (rows, err))
          = [DebugQuery err [] query args]"
    by (simp add: StmtQueryContext_def safeLabel_cases logStatement_def)
  have c: "ctx1 CtxDBInstance = Some (StringValue t) \<and> registry t = None \<longrightarrow>
        last (fst (StmtQueryContext Safe registry ctx1 query args (rows, err)))
          = DebugQuery err (''no writer for key '' @ t) query args
        \<and> ''no writer for key '' @ t \<noteq> []"
    by (simp add: label_of_token index_def)
  from now after nil b c show ?thesis by blast
qed

text \<open>
  In the sample environment: the label is \<^verbatim>\<open>userapi\<close> under the context returned for that
  Writer, right away and after a later call; it is \<^verbatim>\<open>no writer for key 1\<close> under the
  context returned for a nil Writer, empty under a context without token, and
  \<^verbatim>\<open>no writer for key 9\<close> under the unregistered token \<open>9\<close>.
\<close>

theorem OpenWithWriter_label_witness:
  "OpenWithWriter (sample_env False)
         (open_all (sample_env False) sqlutil_init
            [(sample_options ''file:roomserver.db'', Some ''roomserver''),
             (sample_options ''mysql://host/db'', Some ''nobody'')])
         (sample_options ''file:userapi.db'') (Some ''userapi'')
       = (\<lparr>dbToWriter = [''1'' \<mapsto> Some ''roomserver'', ''2'' \<mapsto> Some ''userapi''], instCount = 2\<rparr>,
          Inr (\<lparr>driverName = ''sqlite3'', dataSourceName = ''userapi.db'', settings = []\<rparr>,
               [CtxDBInstance \<mapsto> StringValue ''2'']))
   \<and> last (fst (StmtQueryContext id
         [''1'' \<mapsto> Some ''roomserver'', ''2'' \<mapsto> Some ''userapi'']
         [CtxDBInstance \<mapsto> StringValue ''2''] ''SELECT 1'' ([] :: nat list) ((), None)))
       = DebugQuery None ''userapi'' ''SELECT 1'' []
   \<and> last (fst (StmtQueryContext id
         (dbToWriter (open_all (sample_env False)
            \<lparr>dbToWriter = [''1'' \<mapsto> Some ''roomserver'', ''2'' \<mapsto> Some ''userapi''], instCount = 2\<rparr>
            [(sample_options ''postgres://host/db'', Some ''syncapi'')]))
         [CtxDBInstance \<mapsto> StringValue ''2''] ''SELECT 1'' ([] :: nat list) ((), None)))
       = DebugQuery None ''userapi'' ''SELECT 1'' []
   \<and> OpenWithWriter (sample_env False) sqlutil_init (sample_options ''file:userapi.db'')
         (None :: string option)
       = (\<lparr>dbToWriter = [''1'' \<mapsto> None], instCount = 1\<rparr>,
          Inr (\<lparr>driverName = ''sqlite3'', dataSourceName = ''userapi.db'', settings = []\<rparr>,
               [CtxDBInstance \<mapsto> StringValue ''1'']))
   \<and> last (fst (StmtQueryContext id [''1'' \<mapsto> None]
         [CtxDBInstance \<mapsto> StringValue ''1''] ''SELECT 1'' ([] :: nat list) ((), None)))
       = DebugQuery None ''no writer for key 1'' ''SELECT 1'' []
   \<and> fst (StmtQueryContext id [''1'' \<mapsto> Some ''roomserver''] Map.empty ''SELECT 1''
         ([] :: nat list) ((), None))
       = [DebugQuery None [] ''SELECT 1'' []]
   \<and> last (fst (StmtQueryContext id [''1'' \<mapsto> Some ''roomserver'']
         [CtxDBInstance \<mapsto> StringValue ''9''] ''SELECT 1'' ([] :: nat list) ((), None)))
       = DebugQuery None ''no writer for key 9'' ''SELECT 1'' []"
proof -
  let ?st2 = "\<lparr>dbToWriter = [''1'' \<mapsto> Some ''roomserver'', ''2'' \<mapsto> Some ''userapi''],
      instCount = 2\<rparr>"
  let ?db = "\<lparr>driverName = ''sqlite3'', dataSourceName = ''userapi.db'', settings = []\<rparr>"
  note label = OpenWithWriter_label
    [where e = "sample_env False" and Safe = id and query = "''SELECT 1''"
       and args = "[] :: nat list" and rows = "()" and err = None
       and st = "\<lparr>dbToWriter = [''1'' \<mapsto> Some ''roomserver''], instCount = 1\<rparr>"
       and opts = "sample_options ''file:userapi.db''" and w = "''userapi''"
       and st' = ?st2 and db = ?db and ctx = "[CtxDBInstance \<mapsto> StringValue ''2'']"
       and calls = "[(sample_options ''file:roomserver.db'', Some ''roomserver''),
                     (sample_options ''mysql://host/db'', Some ''nobody'')]"
       and later = "[(sample_options ''postgres://host/db'', Some ''syncapi'')]"
       and st'' = ?st2 and db' = ?db and ctx' = "[CtxDBInstance \<mapsto> StringValue ''2'']"
       and ?ctx0.0 = Map.empty and registry = "[''1'' \<mapsto> Some ''roomserver'']"
       and ?ctx1.0 = "[CtxDBInstance \<mapsto> StringValue ''9'']" and t = "''9''"]
  note label_nil = OpenWithWriter_label
    [where e = "sample_env False" and Safe = id and query = "''SELECT 1''"
       and args = "[] :: nat list" and rows = "()" and err = None
       and st = "sqlutil_init :: string sqlutil"
       and opts = "sample_options ''file:userapi.db''" and w = "''userapi''"
       and st' = "\<lparr>dbToWriter = [''1'' \<mapsto> None], instCount = 1\<rparr>" and db = ?db
       and ctx = "[CtxDBInstance \<mapsto> StringValue ''1'']"
       and calls = "[]" and later = "[]"
       and st'' = ?st2 and db' = ?db and ctx' = "[CtxDBInstance \<mapsto> StringValue ''2'']"
       and ?ctx0.0 = Map.empty and registry = "[''1'' \<mapsto> Some ''roomserver'']"
       and ?ctx1.0 = "[CtxDBInstance \<mapsto> StringValue ''9'']" and t = "''9''"]
  have opened: "OpenWithWriter (sample_env False)
         (open_all (sample_env False) sqlutil_init
            [(sample_options ''file:roomserver.db'', Some ''roomserver''),
             (sample_options ''mysql://host/db'', Some ''nobody'')])
         (sample_options ''file:userapi.db'') (Some ''userapi'')
       = (?st2, Inr (?db, [CtxDBInstance \<mapsto> StringValue ''2'']))"
    by (simp only: sample_run sample_next)
  from label sample_next have now: "last (fst (StmtQueryContext id (dbToWriter ?st2)
         [CtxDBInstance \<mapsto> StringValue ''2''] ''SELECT 1'' ([] :: nat list) ((), None)))
       = DebugQuery None (id ''userapi'') ''SELECT 1'' []"
    by blast
  from label sample_bound opened have after: "last (fst (StmtQueryContext id
         (dbToWriter (open_all (sample_env False) ?st2
            [(sample_options ''postgres://host/db'', Some ''syncapi'')]))
         [CtxDBInstance \<mapsto> StringValue ''2''] ''SELECT 1'' ([] :: nat list) ((), None)))
       = DebugQuery None (id ''userapi'') ''SELECT 1'' []"
    by blast
  from label_nil sample_nil have nil: "last (fst (StmtQueryContext id
         (dbToWriter \<lparr>dbToWriter = [''1'' \<mapsto> None :: string option], instCount = 1\<rparr>)
         [CtxDBInstance \<mapsto> StringValue ''1''] ''SELECT 1'' ([] :: nat list) ((), None)))
       = DebugQuery None (''no writer for key '' @
           Sprintf_d (instCount \<lparr>dbToWriter = [''1'' \<mapsto> None :: string option], instCount = 1\<rparr>))
           ''SELECT 1'' []"
    by blast
  have one: "Sprintf_d 1 = ''1''"
    by (simp add: Sprintf_d_def digits.simps digit_def)
  from label have absent: "fst (StmtQueryContext id [''1'' \<mapsto> Some ''roomserver''] Map.empty ''SELECT 1''
         ([] :: nat list) ((), None))
       = [DebugQuery None [] ''SELECT 1'' []]"
    by simp
  have nine: "[CtxDBInstance \<mapsto> StringValue ''9''] CtxDBInstance = Some (StringValue ''9'')
      \<and> [''1'' \<mapsto> Some ''roomserver''] ''9'' = None"
    by simp
  from label nine have unknown: "last (fst (StmtQueryContext id [''1'' \<mapsto> Some ''roomserver'']
         [CtxDBInstance \<mapsto> StringValue ''9''] ''SELECT 1'' ([] :: nat list) ((), None)))
       = DebugQuery None (''no writer for key '' @ ''9'') ''SELECT 1'' []"
    by blast
  from opened now after sample_nil nil absent unknown show ?thesis
    by (simp add: one)
qed

end
